theory Spec2Isabelle
  imports Complex_Main
begin

section \<open>Data model\<close>

text \<open>
  The Python exceptions the modelled code can raise.
\<close>

datatype error = RuntimeError | IndexError | ValueError | UnboundLocalError

text \<open>
  A tensor of shape \<open>[n, d1, ..., dk]\<close> is kept as the list of its \<open>n\<close> slices along
  dimension 0 (\<open>rows\<close>), each slice flattened row-major to \<open>d1 * ... * dk\<close> numbers,
  together with the trailing dimensions \<open>[d1, ..., dk]\<close> (\<open>inner\<close>). The shape is
  explicit because a tensor without rows still has trailing dimensions in torch.
  Elements are real numbers: rounding, overflow and underflow of 32-bit floats are
  outside this model.
\<close>

record tensor =
  inner :: "nat list"
  rows :: "real list list"

definition wf_tensor :: "tensor \<Rightarrow> bool" where
  "wf_tensor t = list_all (\<lambda>r. length r = prod_list (inner t)) (rows t)"

text \<open>
  Score and gate matrices are two-dimensional, \<open>[batch, num_candidates]\<close>: the number
  of columns and the list of rows.
\<close>

record matrix =
  ncols :: nat
  mrows :: "real list list"


section \<open>Candidate period lengths\<close>

text \<open>
  \<open>torch.fft.rfftfreq(n)\<close> with the default spacing is \<open>arange(n // 2 + 1) * (1 / n)\<close>.
\<close>

definition rfftfreq :: "nat \<Rightarrow> real list" where
  "rfftfreq n = map (\<lambda>i. real i * (1 / real n)) [0..<n div 2 + 1]"

text \<open>\<open>Tensor.unique()\<close> on a one-dimensional tensor: the distinct values, ascending.\<close>

definition unique :: "int list \<Rightarrow> int list" where
  "unique xs = sort (remdups xs)"

text \<open>
  \<open>EncoderStack.get_patch_sizes\<close> of \<open>MSPT.py\<close>, as its only call site uses it
  (\<open>exclude_zero=True\<close>): \<open>(1 / rfftfreq(seq_len)[1:]).ceil().int().unique()\<close>.
\<close>

definition get_patch_sizes :: "nat \<Rightarrow> int list" where
  "get_patch_sizes seq_len =
     (let peroid_list = map (\<lambda>f. 1 / f) (drop 1 (rfftfreq seq_len))
      in unique (map ceiling peroid_list))"


section \<open>The model's forward call\<close>

text \<open>
  \<open>Model\<close> of \<open>MSPT.py\<close>. The layers it calls (\<open>RevIN\<close>, \<open>DataEmbedding\<close>, the encoder
  stack, the head, the einops rearrangement and the final slice) are collaborators and
  enter as functions that may raise.
\<close>

record model =
  individual :: bool
  pretrain :: bool
  revin_forward :: "tensor \<Rightarrow> tensor \<Rightarrow> error + tensor \<times> tensor"
  revin_inverse :: "tensor \<Rightarrow> error + tensor"
  rearrange_individual :: "tensor \<Rightarrow> tensor \<Rightarrow> error + tensor \<times> tensor"
  enc_embedding :: "tensor \<Rightarrow> tensor \<Rightarrow> error + tensor"
  dec_embedding :: "tensor \<Rightarrow> tensor \<Rightarrow> error + tensor"
  encoder_stack :: "tensor \<Rightarrow> error + tensor"
  head :: "tensor \<Rightarrow> error + tensor"
  last_pred_len :: "tensor \<Rightarrow> error + tensor"

text \<open>What \<open>Model.forward\<close> returns: a pair in pretraining mode, a tensor otherwise.\<close>

datatype 'm forward_out = Reconstruction tensor 'm | Forecast tensor

definition bind :: "error + 'a \<Rightarrow> ('a \<Rightarrow> error + 'b) \<Rightarrow> error + 'b" where
  "bind r f = (case r of Inl e \<Rightarrow> Inl e | Inr v \<Rightarrow> f v)"

text \<open>
  Reading a local variable of a Python function: one that no executed statement has
  assigned yet raises \<open>UnboundLocalError\<close>.
\<close>

definition read_local :: "'a option \<Rightarrow> error + 'a" where
  "read_local v = (case v of None \<Rightarrow> Inl UnboundLocalError | Some x \<Rightarrow> Inr x)"

text \<open>
  \<open>Model.forward\<close>. The local \<open>dec_out\<close> is unassigned when the function starts. In the
  pretraining branch the only statement that assigned it is commented out in the source,
  so the branch reads it unassigned; the other branch assigns it first.
\<close>

definition forward ::
  "model \<Rightarrow> tensor \<Rightarrow> tensor \<Rightarrow> tensor \<Rightarrow> tensor \<Rightarrow> 'm \<Rightarrow> error + 'm forward_out" where
  "forward self x_enc x_mark_enc x_dec x_mark_dec mask_in =
     (let dec_out = None in
      bind (revin_forward self x_enc x_dec) (\<lambda>(x_enc, x_dec).
      bind (if individual self then rearrange_individual self x_enc x_mark_enc
            else Inr (x_enc, x_mark_enc)) (\<lambda>(x_enc, x_mark_enc).
      bind (enc_embedding self x_enc x_mark_enc) (\<lambda>enc_out.
      if pretrain self then
        bind (encoder_stack self enc_out) (\<lambda>enc_out.
        bind (read_local dec_out) (\<lambda>d.
        bind (revin_inverse self d) (\<lambda>dec_out.
        Inr (Reconstruction dec_out mask_in))))
      else
        bind (dec_embedding self x_dec x_mark_dec) (\<lambda>dec_out.
        bind (encoder_stack self enc_out) (\<lambda>enc_out.
        bind (head self enc_out) (\<lambda>dec_out.
        bind (revin_inverse self dec_out) (\<lambda>dec_out.
        bind (last_pred_len self dec_out) (\<lambda>out.
        Inr (Forecast out))))))))))"

section \<open>Sparse dispatcher\<close>

text \<open>
  \<open>torch.nonzero\<close> of a matrix: the (row, column) indices of the nonzero entries, in
  row-major order.
\<close>

definition nonzero :: "matrix \<Rightarrow> (nat \<times> nat) list" where
  "nonzero g =
     concat (map (\<lambda>b. map (\<lambda>e. (b, e)) (filter (\<lambda>e. mrows g ! b ! e \<noteq> 0) [0..<ncols g]))
                 [0..<length (mrows g)])"

text \<open>
  The index half of \<open>Tensor.sort\<close> on one column: the positions of the keys in
  ascending key order. Equal keys keep their original order here (a stable sort);
  \<open>torch.sort\<close> promises that order only with \<open>stable=True\<close>, which the source does not
  pass.
\<close>

definition argsort :: "nat list \<Rightarrow> nat list" where
  "argsort keys = sort_key (\<lambda>i. keys ! i) [0..<length keys]"

text \<open>
  The fields of \<open>SparseDispatcher\<close>. \<open>_expert_index\<close> and \<open>_nonzero_gates\<close> have shape
  \<open>[N, 1]\<close> in the source and are kept as lists of their \<open>N\<close> entries.
\<close>

record sparse_dispatcher =
  sd_gates :: matrix
  sd_num_experts :: nat
  sd_expert_index :: "nat list"
  sd_batch_index :: "nat list"
  sd_part_sizes :: "nat list"
  sd_nonzero_gates :: "real list"

text \<open>
  \<open>SparseDispatcher.__init__\<close>. \<open>torch.nonzero(gates).sort(0)\<close> sorts the two index
  columns independently; only the second column (the expert indices) is used, its sorted
  values as \<open>_expert_index\<close> and its sorting permutation to reorder the first column into
  \<open>_batch_index\<close>. \<open>_part_sizes\<close> counts the positive entries of each column.
\<close>

definition SparseDispatcher :: "nat \<Rightarrow> matrix \<Rightarrow> sparse_dispatcher" where
  "SparseDispatcher num_experts gates =
     (let nz = nonzero gates;
          sorted_experts = sort (map snd nz);
          index_sorted_experts = argsort (map snd nz);
          expert_index = sorted_experts;
          batch_index = map (\<lambda>i. fst (nz ! i)) index_sorted_experts;
          part_sizes = map (\<lambda>e. length (filter (\<lambda>r. r ! e > 0) (mrows gates))) [0..<ncols gates];
          gates_exp = map (\<lambda>b. mrows gates ! b) batch_index;
          nonzero_gates = map2 (\<lambda>r e. r ! e) gates_exp expert_index
      in \<lparr>sd_gates = gates, sd_num_experts = num_experts, sd_expert_index = expert_index,
          sd_batch_index = batch_index, sd_part_sizes = part_sizes,
          sd_nonzero_gates = nonzero_gates\<rparr>)"





text \<open>
  \<open>torch.cat(ts, 0)\<close>: the list must not be empty, one-dimensional tensors without
  elements are skipped, and all others must agree in their trailing dimensions.
\<close>

definition cat0 :: "tensor list \<Rightarrow> error + tensor" where
  "cat0 ts =
     (if ts = [] then Inl RuntimeError
      else case filter (\<lambda>t. \<not> (inner t = [] \<and> rows t = [])) ts of
        [] \<Rightarrow> Inr \<lparr>inner = [], rows = []\<rparr>
      | t # us \<Rightarrow>
          if list_all (\<lambda>u. inner u = inner t) us
          then Inr \<lparr>inner = inner t, rows = concat (map rows (t # us))\<rparr>
          else Inl RuntimeError)"

definition map_tensor :: "(real \<Rightarrow> real) \<Rightarrow> tensor \<Rightarrow> tensor" where
  "map_tensor f t = t\<lparr>rows := map (map f) (rows t)\<rparr>"

text \<open>
  \<open>torch.einsum("ikh,ik -> ikh", stitched, g)\<close> for \<open>g\<close> of shape \<open>[N, 1]\<close>: every
  element of row \<open>i\<close> is multiplied by \<open>g[i]\<close>. The first operand must have three
  dimensions; a dimension of size 1 is broadcast against the other operand's.
\<close>

definition einsum_ikh_ik :: "tensor \<Rightarrow> real list \<Rightarrow> error + tensor" where
  "einsum_ikh_ik stitched g =
     (if length (inner stitched) \<noteq> 2 then Inl RuntimeError
      else if length (rows stitched) = length g
        then Inr (stitched\<lparr>rows := map2 (\<lambda>r w. map (\<lambda>v. v * w) r) (rows stitched) g\<rparr>)
      else if length (rows stitched) = 1
        then Inr (stitched\<lparr>rows := map (\<lambda>w. map (\<lambda>v. v * w) (hd (rows stitched))) g\<rparr>)
      else if length g = 1
        then Inr (stitched\<lparr>rows := map (\<lambda>r. map (\<lambda>v. v * hd g) r) (rows stitched)\<rparr>)
      else Inl RuntimeError)"

text \<open>
  \<open>zeros.index_add(0, index, source)\<close>: row \<open>j\<close> of the source is added to row
  \<open>index[j]\<close>; the source needs one row per index and the trailing shape of \<open>zeros\<close>.
\<close>

definition index_add :: "tensor \<Rightarrow> nat list \<Rightarrow> tensor \<Rightarrow> error + tensor" where
  "index_add zeros idx source =
     (if length idx \<noteq> length (rows source) \<or> inner source \<noteq> inner zeros then Inl RuntimeError
      else if list_ex (\<lambda>i. length (rows zeros) \<le> i) idx then Inl IndexError
      else Inr (zeros\<lparr>rows :=
             fold (\<lambda>(i, r) acc. acc[i := map2 (+) (acc ! i) r]) (zip idx (rows source)) (rows zeros)\<rparr>))"

text \<open>\<open>np.finfo(float).eps\<close>, the machine epsilon of a 64-bit float: \<open>2.220446049250313e-16\<close>.\<close>

definition finfo_float_eps :: real where
  "finfo_float_eps = 1 / 2 ^ 52"

text \<open>
  \<open>SparseDispatcher.combine\<close>. The shape of \<open>zeros\<close> is read off the last expert
  output, which needs at least three dimensions for \<open>size(2)\<close>. The logarithm of a
  negative cell is NaN in torch and has no counterpart here; it takes a negative gate
  to produce one.
\<close>

definition combine :: "sparse_dispatcher \<Rightarrow> tensor list \<Rightarrow> bool \<Rightarrow> error + tensor" where
  "combine self expert_out multiply_by_gates =
     bind (cat0 expert_out) (\<lambda>c.
     bind (if multiply_by_gates then einsum_ikh_ik (map_tensor exp c) (sd_nonzero_gates self)
           else Inr (map_tensor exp c)) (\<lambda>stitched.
     case inner (last expert_out) of
       L # D # _ \<Rightarrow>
         bind (index_add \<lparr>inner = [L, D],
                          rows = replicate (length (mrows (sd_gates self))) (replicate (L * D) 0)\<rparr>
                 (sd_batch_index self) stitched) (\<lambda>combined.
         Inr (map_tensor ln
                (map_tensor (\<lambda>v. if v = 0 then finfo_float_eps else v) combined)))
     | _ \<Rightarrow> Inl IndexError))"


text \<open>
  \<open>CrossScalePeriodicFeatureAggregator.forward\<close> of \<open>MSPT_0525.py\<close>: the bookkeeping of
  \<open>SparseDispatcher.__init__\<close> and the body of \<open>combine\<close> in one function.
\<close>

definition aggregator_forward :: "tensor list \<Rightarrow> matrix \<Rightarrow> bool \<Rightarrow> error + tensor" where
  "aggregator_forward xs gates multiply_by_gates =
     (let nz = nonzero gates;
          sorted_experts = sort (map snd nz);
          index_sorted_experts = argsort (map snd nz);
          expert_index = sorted_experts;
          batch_index = map (\<lambda>i. fst (nz ! i)) index_sorted_experts;
          gates_exp = map (\<lambda>b. mrows gates ! b) batch_index;
          nonzero_gates = map2 (\<lambda>r e. r ! e) gates_exp expert_index
      in bind (cat0 xs) (\<lambda>c.
         bind (if multiply_by_gates then einsum_ikh_ik (map_tensor exp c) nonzero_gates
               else Inr (map_tensor exp c)) (\<lambda>stitched.
         case inner (last xs) of
           L # D # _ \<Rightarrow>
             bind (index_add \<lparr>inner = [L, D],
                              rows = replicate (length (mrows gates)) (replicate (L * D) 0)\<rparr>
                     batch_index stitched) (\<lambda>combined.
             Inr (map_tensor ln
                    (map_tensor (\<lambda>v. if v = 0 then finfo_float_eps else v) combined)))
         | _ \<Rightarrow> Inl IndexError)))"

text \<open>
  The samples a gate matrix routes to expert \<open>e\<close>, in batch order, and the experts it
  routes sample \<open>b\<close> to, in expert order.
\<close>

definition routed_samples :: "matrix \<Rightarrow> nat \<Rightarrow> nat list" where
  "routed_samples g e = filter (\<lambda>b. mrows g ! b ! e \<noteq> 0) [0..<length (mrows g)]"

definition routed_experts :: "matrix \<Rightarrow> nat \<Rightarrow> nat list" where
  "routed_experts g b = filter (\<lambda>e. mrows g ! b ! e \<noteq> 0) [0..<ncols g]"


section \<open>Top-k gating\<close>

text \<open>
  \<open>Tensor.topk(k, dim=1)\<close> on a matrix: per row the \<open>k\<close> largest values in descending
  order and their column indices; it raises when the rows have fewer than \<open>k\<close> entries.
  Among equal values the lower column comes first here; torch leaves that order open.
\<close>

definition topk_indices :: "nat \<Rightarrow> real list \<Rightarrow> nat list" where
  "topk_indices k r = take k (sort_key (\<lambda>i. - (r ! i)) [0..<length r])"

definition topk :: "nat \<Rightarrow> matrix \<Rightarrow> error + real list list \<times> nat list list" where
  "topk k m =
     (if ncols m < k then Inl RuntimeError
      else Inr (map (\<lambda>r. map (\<lambda>i. r ! i) (topk_indices k r)) (mrows m),
                map (topk_indices k) (mrows m)))"

definition softmax :: "real list \<Rightarrow> real list" where
  "softmax xs = map (\<lambda>v. exp v / sum_list (map exp xs)) xs"

text \<open>One row of \<open>zeros.scatter(1, index, src)\<close>: \<open>row[index[j]] = src[j]\<close>.\<close>

definition scatter_row :: "real list \<Rightarrow> nat list \<Rightarrow> real list \<Rightarrow> real list" where
  "scatter_row zeros idx src = fold (\<lambda>(i, v) acc. acc[i := v]) (zip idx src) zeros"

text \<open>\<open>F.softplus\<close> with its defaults \<open>beta = 1\<close>, \<open>threshold = 20\<close>.\<close>

definition softplus :: "real \<Rightarrow> real" where
  "softplus v = (if v > 20 then v else ln (1 + exp v))"

definition map_matrix :: "(real \<Rightarrow> real) \<Rightarrow> matrix \<Rightarrow> matrix" where
  "map_matrix f m = m\<lparr>mrows := map (map f) (mrows m)\<rparr>"

text \<open>The matrix product \<open>a @ b\<close>; the inner dimensions must agree.\<close>

definition matmul :: "matrix \<Rightarrow> matrix \<Rightarrow> error + matrix" where
  "matmul a b =
     (if ncols a \<noteq> length (mrows b) then Inl RuntimeError
      else Inr \<lparr>ncols = ncols b,
                mrows = map (\<lambda>r. map (\<lambda>e. sum_list (map2 (*) r (map (\<lambda>br. br ! e) (mrows b))))
                                      [0..<ncols b]) (mrows a)\<rparr>)"

text \<open>
  An elementwise binary operation on two matrices with torch's broadcasting: the sizes
  of a dimension must be equal or one of them 1.
\<close>

definition bcast :: "nat \<Rightarrow> nat \<Rightarrow> nat option" where
  "bcast m n = (if m = n then Some m else if m = 1 then Some n else if n = 1 then Some m else None)"

definition entry :: "matrix \<Rightarrow> nat \<Rightarrow> nat \<Rightarrow> real" where
  "entry m i j = mrows m ! (if length (mrows m) = 1 then 0 else i) ! (if ncols m = 1 then 0 else j)"

definition broadcast2 :: "(real \<Rightarrow> real \<Rightarrow> real) \<Rightarrow> matrix \<Rightarrow> matrix \<Rightarrow> error + matrix" where
  "broadcast2 f a b =
     (case (bcast (length (mrows a)) (length (mrows b)), bcast (ncols a) (ncols b)) of
        (Some n, Some c) \<Rightarrow>
          Inr \<lparr>ncols = c, mrows = map (\<lambda>i. map (\<lambda>j. f (entry a i j) (entry b i j)) [0..<c]) [0..<n]\<rparr>
      | _ \<Rightarrow> Inl RuntimeError)"

text \<open>
  The fields of \<open>EncoderStack\<close> that the gating uses. \<open>start_linear\<close> is a collaborator:
  it stands for \<open>self.start_linear(x).squeeze(-1)\<close>, from \<open>[bs, L, D]\<close> to \<open>[bs, L]\<close>.
\<close>

record configs =
  seq_len :: nat
  top_k :: nat
  e_layers :: nat

record encoder_stack =
  es_seq_len :: nat
  es_k :: nat
  es_e_layer :: nat
  es_num_patch_sizes :: nat
  es_start_linear :: "tensor \<Rightarrow> error + matrix"
  es_w_noise :: matrix

text \<open>
  \<open>EncoderStack.__init__\<close>, with the freshly initialised linear layer as a parameter;
  \<open>w_noise\<close> starts as \<open>zeros(seq_len, num_patch_sizes)\<close>.
\<close>

definition EncoderStack :: "configs \<Rightarrow> (tensor \<Rightarrow> error + matrix) \<Rightarrow> encoder_stack" where
  "EncoderStack cfg start_linear =
     (let patch_sizes = get_patch_sizes (seq_len cfg);
          num_patch_sizes = length patch_sizes
      in \<lparr>es_seq_len = seq_len cfg, es_k = top_k cfg, es_e_layer = e_layers cfg,
          es_num_patch_sizes = num_patch_sizes, es_start_linear = start_linear,
          es_w_noise = \<lparr>ncols = num_patch_sizes,
                        mrows = replicate (seq_len cfg) (replicate num_patch_sizes 0)\<rparr>\<rparr>)"

text \<open>
  \<open>EncoderStack.top_k_gating\<close>, in two parts: the value of its local \<open>logits\<close> (the
  clean scores, or in training the noisy ones), and the function itself. \<open>randn\<close> is
  the draw of \<open>torch.randn_like(clean_logits)\<close>, the only source of randomness, made a
  parameter.
\<close>

definition gating_logits :: "encoder_stack \<Rightarrow> matrix \<Rightarrow> matrix \<Rightarrow> bool \<Rightarrow> matrix \<Rightarrow> real \<Rightarrow> error + matrix" where
  "gating_logits self x groups_amplitude train randn noise_epsilon =
     (let clean_logits = groups_amplitude in
      if train then
        bind (matmul x (es_w_noise self)) (\<lambda>raw_noise_stddev.
        let noise_stddev = map_matrix (\<lambda>v. softplus v + noise_epsilon) raw_noise_stddev in
        bind (broadcast2 (*) randn noise_stddev) (\<lambda>scaled.
        broadcast2 (+) clean_logits scaled))
      else Inr clean_logits)"

definition top_k_gating ::
  "encoder_stack \<Rightarrow> tensor \<Rightarrow> matrix \<Rightarrow> bool \<Rightarrow> matrix \<Rightarrow> real \<Rightarrow> error + matrix" where
  "top_k_gating self x groups_amplitude train randn noise_epsilon =
     bind (es_start_linear self x) (\<lambda>x.
     bind (gating_logits self x groups_amplitude train randn noise_epsilon) (\<lambda>logits.
     bind (topk (es_k self + 1) logits) (\<lambda>(top_logits, top_indices).
     let top_k_logits = map (take (es_k self)) top_logits;
         top_k_indices = map (take (es_k self)) top_indices;
         top_k_gates = map softmax top_k_logits;
         zeros = map (\<lambda>r. replicate (ncols logits) 0) (mrows logits)
     in Inr \<lparr>ncols = ncols logits,
             mrows = map (\<lambda>(z, i, v). scatter_row z i v)
                         (zip zeros (zip top_k_indices top_k_gates))\<rparr>)))"

text \<open>
  The last step of \<open>afno1d_for_peroid_weights\<close> of \<open>MSPT_0525.py\<close> (from the call of
  \<open>torch.topk\<close> on), applied to the \<open>[B, Ps]\<close> matrix \<open>weights\<close> that either branch of the
  function has computed before.
\<close>

definition afno1d_gates :: "nat \<Rightarrow> matrix \<Rightarrow> error + matrix" where
  "afno1d_gates k weights =
     bind (topk k weights) (\<lambda>(top_weights, top_indices).
     let top_weights = map softmax top_weights;
         zeros = map (\<lambda>r. replicate (ncols weights) 0) (mrows weights)
     in Inr \<lparr>ncols = ncols weights,
             mrows = map (\<lambda>(z, i, v). scatter_row z i v)
                         (zip zeros (zip top_indices top_weights))\<rparr>)"

text \<open>
  \<open>B, L, C = x.shape\<close> followed by \<open>rearrange(x, 'B L C -> B C L')\<close>: the unpacking
  raises unless \<open>x\<close> has three dimensions.
\<close>

definition rearrange_BLC_BCL :: "tensor \<Rightarrow> error + tensor" where
  "rearrange_BLC_BCL x =
     (case inner x of
        [L, C] \<Rightarrow>
          Inr \<lparr>inner = [C, L],
               rows = map (\<lambda>r. concat (map (\<lambda>c. map (\<lambda>l. r ! (l * C + c)) [0..<L]) [0..<C]))
                          (rows x)\<rparr>
      | _ \<Rightarrow> Inl ValueError)"

text \<open>The product \<open>x @ w\<close> of a \<open>[B, C, L]\<close> tensor with an \<open>[L, P]\<close> matrix.\<close>

definition matmul3 :: "tensor \<Rightarrow> matrix \<Rightarrow> error + tensor" where
  "matmul3 x w =
     (case inner x of
        [C, L] \<Rightarrow>
          if L \<noteq> length (mrows w) then Inl RuntimeError
          else Inr \<lparr>inner = [C, ncols w],
                    rows = map (\<lambda>r. concat (map (\<lambda>c. map (\<lambda>p.
                                  sum_list (map (\<lambda>l. r ! (c * L + l) * (mrows w ! l ! p)) [0..<L]))
                                  [0..<ncols w]) [0..<C])) (rows x)\<rparr>
      | _ \<Rightarrow> Inl RuntimeError)"

text \<open>
  An elementwise binary operation on two three-dimensional tensors with torch's
  broadcasting, and \<open>Tensor.mean(dim=-2)\<close> of a \<open>[B, C, P]\<close> tensor, a \<open>[B, P]\<close> matrix.
  Both are used on three-dimensional tensors only. The mean over no channel at all
  (\<open>C = 0\<close>) is NaN in torch and 0 here.
\<close>

definition entry3 :: "tensor \<Rightarrow> nat \<Rightarrow> nat \<Rightarrow> nat \<Rightarrow> real" where
  "entry3 t i c p =
     (case inner t of
        [C, P] \<Rightarrow> rows t ! (if length (rows t) = 1 then 0 else i)
                         ! ((if C = 1 then 0 else c) * P + (if P = 1 then 0 else p))
      | _ \<Rightarrow> 0)"

definition broadcast3 :: "(real \<Rightarrow> real \<Rightarrow> real) \<Rightarrow> tensor \<Rightarrow> tensor \<Rightarrow> error + tensor" where
  "broadcast3 f a b =
     (case (inner a, inner b) of
        ([C, P], [C', P']) \<Rightarrow>
          (case (bcast (length (rows a)) (length (rows b)), bcast C C', bcast P P') of
             (Some n, Some m, Some q) \<Rightarrow>
               Inr \<lparr>inner = [m, q],
                    rows = map (\<lambda>i. concat (map (\<lambda>c. map (\<lambda>p. f (entry3 a i c p) (entry3 b i c p))
                                                           [0..<q]) [0..<m])) [0..<n]\<rparr>
           | _ \<Rightarrow> Inl RuntimeError)
      | _ \<Rightarrow> Inl RuntimeError)"

definition mean_dim2 :: "tensor \<Rightarrow> error + matrix" where
  "mean_dim2 t =
     (case inner t of
        [C, P] \<Rightarrow>
          Inr \<lparr>ncols = P,
               mrows = map (\<lambda>r. map (\<lambda>p. sum_list (map (\<lambda>c. r ! (c * P + p)) [0..<C]) / real C)
                                     [0..<P]) (rows t)\<rparr>
      | _ \<Rightarrow> Inl RuntimeError)"

text \<open>
  The fields of \<open>MultiScalePeriodicPatchEmbedding\<close> that its gating uses. \<open>spectral\<close> is a
  collaborator: it stands for the Fourier transform, the two complex layers, the
  soft-shrinkage and \<open>torch.abs\<close>, from the rearranged input \<open>[B, C, L]\<close> to the magnitudes
  \<open>[B, C, Ps]\<close>.
\<close>

record patch_embedding =
  pe_top_k :: nat
  pe_w_noise :: matrix
  pe_spectral :: "tensor \<Rightarrow> error + tensor"

text \<open>
  \<open>MultiScalePeriodicPatchEmbedding.afno1d_for_peroid_weights\<close>; \<open>randn\<close> is the draw of
  \<open>torch.randn_like(weights)\<close>.
\<close>

definition afno1d_for_peroid_weights ::
  "patch_embedding \<Rightarrow> tensor \<Rightarrow> bool \<Rightarrow> tensor \<Rightarrow> real \<Rightarrow> error + matrix" where
  "afno1d_for_peroid_weights self x training randn noise_epsilon =
     bind (rearrange_BLC_BCL x) (\<lambda>x.
     bind (pe_spectral self x) (\<lambda>weights.
     bind (if training then
             bind (matmul3 x (pe_w_noise self)) (\<lambda>raw_noise_stddev.
             let noise_stddev = map_tensor (\<lambda>v. softplus v + noise_epsilon) raw_noise_stddev in
             bind (broadcast3 (*) randn noise_stddev) (\<lambda>scaled.
             bind (broadcast3 (+) weights scaled) (\<lambda>noisy_weights.
             mean_dim2 noisy_weights)))
           else mean_dim2 weights) (\<lambda>weights.
     afno1d_gates (pe_top_k self) weights)))"

text \<open>
  The position of sample \<open>b\<close> in the sub-batch of expert \<open>e\<close>: the number of earlier
  samples routed to \<open>e\<close>.
\<close>

definition slot :: "matrix \<Rightarrow> nat \<Rightarrow> nat \<Rightarrow> nat" where
  "slot g b e = length (filter (\<lambda>b'. mrows g ! b' ! e \<noteq> 0) [0..<b])"

text \<open>
  The experts' contract: one output per expert, of shape \<open>[n, L, D]\<close> with one row for
  each sample that was routed to the expert.
\<close>

definition expert_out_ok :: "matrix \<Rightarrow> nat \<Rightarrow> nat \<Rightarrow> tensor list \<Rightarrow> bool" where
  "expert_out_ok g L D expert_out =
     (length expert_out = ncols g \<and>
      list_all (\<lambda>e. inner (expert_out ! e) = [L, D] \<and> wf_tensor (expert_out ! e) \<and>
                     length (rows (expert_out ! e)) = length (routed_samples g e))
               [0..<ncols g])"

text \<open>
  Cell \<open>c\<close> of the gate-weighted sum of the exponentials of the outputs that the
  experts of sample \<open>b\<close> produced for it.
\<close>

definition accumulated :: "matrix \<Rightarrow> tensor list \<Rightarrow> nat \<Rightarrow> nat \<Rightarrow> real" where
  "accumulated g expert_out b c =
     sum_list (map (\<lambda>e. mrows g ! b ! e * exp (rows (expert_out ! e) ! slot g b e ! c))
                   (routed_experts g b))"



section \<open>Example inputs\<close>




text \<open>
  One sample and one expert: with an all-zero gate row the expert receives nothing; with
  gate weight 1 it returns the single value \<open>-52\<close>.
\<close>

definition zero_gate :: matrix where
  "zero_gate = \<lparr>ncols = 1, mrows = [[0]]\<rparr>"

definition ex_empty_out :: "tensor list" where
  "ex_empty_out = [\<lparr>inner = [1, 1], rows = []\<rparr>]"






text \<open>
  Sequence length 4 has the two candidate periods 2 and 4. Three configurations, asking
  for one, two and five experts per sample; a stand-in for the linear layer; one sample
  with its two scores.
\<close>

definition ex_cfg :: configs where
  "ex_cfg = \<lparr>seq_len = 4, top_k = 1, e_layers = 1\<rparr>"

definition ex_cfg_eq :: configs where
  "ex_cfg_eq = \<lparr>seq_len = 4, top_k = 2, e_layers = 1\<rparr>"

definition ex_cfg_big :: configs where
  "ex_cfg_big = \<lparr>seq_len = 4, top_k = 5, e_layers = 1\<rparr>"

definition ex_linear :: "tensor \<Rightarrow> error + matrix" where
  "ex_linear t = Inr \<lparr>ncols = 4, mrows = map (\<lambda>r. [0, 0, 0, 0]) (rows t)\<rparr>"

definition ex_x :: tensor where
  "ex_x = \<lparr>inner = [4, 1], rows = [[1, 2, 3, 4]]\<rparr>"

definition ex_scores :: matrix where
  "ex_scores = \<lparr>ncols = 2, mrows = [[1 / 4, 3 / 4]]\<rparr>"

section \<open>Properties of the candidate periods\<close>




section \<open>Properties of the forward call\<close>

text \<open>
  Claim C9 says that a forward call in pretraining mode returns a reconstruction.
  The code does not: whatever the layers do and whatever the input is, the call ends in
  an exception, and when every layer before it succeeds the exception is the
  \<open>UnboundLocalError\<close> of reading \<open>dec_out\<close>.
\<close>

theorem forward_pretrain_raises:
  "isl (forward (self\<lparr>pretrain := True\<rparr>) x_enc x_mark_enc x_dec x_mark_dec mask_in)
   \<and> forward (self\<lparr>pretrain := True\<rparr>) x_enc x_mark_enc x_dec x_mark_dec mask_in
     = bind (revin_forward self x_enc x_dec) (\<lambda>(x_enc, x_dec).
       bind (if individual self then rearrange_individual self x_enc x_mark_enc
             else Inr (x_enc, x_mark_enc)) (\<lambda>(x_enc, x_mark_enc).
       bind (enc_embedding self x_enc x_mark_enc) (\<lambda>enc_out.
       bind (encoder_stack self enc_out) (\<lambda>enc_out. Inl UnboundLocalError))))"
  by (simp add: forward_def bind_def read_local_def split: sum.splits prod.splits)

section \<open>Properties of the dispatcher\<close>

lemma map_insort_key:
  "map g (insort_key (\<lambda>y. f (g y)) y ys) = insort_key f (g y) (map g ys)"
  by (induction ys) auto

lemma map_sort_key:
  "map g (sort_key (\<lambda>y. f (g y)) ys) = sort_key f (map g ys)"
  by (induction ys) (auto simp: map_insort_key)

lemma insort_key_cong_set:
  "f y = h y \<Longrightarrow> (\<And>x. x \<in> set ys \<Longrightarrow> f x = h x) \<Longrightarrow> insort_key f y ys = insort_key h y ys"
  by (induction ys) auto

lemma sort_key_cong_set:
  "(\<And>x. x \<in> set ys \<Longrightarrow> f x = h x) \<Longrightarrow> sort_key f ys = sort_key h ys"
proof (induction ys)
  case Nil
  then show ?case by simp
next
  case (Cons y ys)
  have "sort_key f ys = sort_key h ys"
    using Cons by simp
  moreover have "insort_key f y (sort_key h ys) = insort_key h y (sort_key h ys)"
    by (rule insort_key_cong_set) (simp_all add: Cons.prems)
  ultimately show ?case by simp
qed

lemma nth_argsort:
  "map (\<lambda>i. xs ! i) (argsort (map f xs)) = sort_key f xs"
proof -
  have "sort_key (\<lambda>i. map f xs ! i) [0..<length xs] = sort_key (\<lambda>i. f (xs ! i)) [0..<length xs]"
    by (rule sort_key_cong_set) simp
  then have "map (\<lambda>i. xs ! i) (argsort (map f xs)) = sort_key f (map (\<lambda>i. xs ! i) [0..<length xs])"
    by (simp add: argsort_def map_sort_key)
  then show ?thesis
    by (simp add: map_nth)
qed

lemma sort_map_key: "sort (map f xs) = map f (sort_key f xs)"
  using map_sort_key [of f "\<lambda>x. x" xs] by simp

lemma sorted_split_below:
  "sorted (map f ys) \<Longrightarrow> ys = filter (\<lambda>x. f x < (n::nat)) ys @ filter (\<lambda>x. f x = n) ys @ filter (\<lambda>x. n < f x) ys"
proof (induction ys)
  case Nil
  then show ?case by simp
next
  case (Cons y ys)
  then have ge: "\<forall>x\<in>set ys. f y \<le> f x" and s: "sorted (map f ys)"
    by auto
  show ?case
  proof (cases "f y < n")
    case True
    then show ?thesis using Cons.IH [OF s] by simp
  next
    case False
    then have a: "filter (\<lambda>x. f x < n) ys = []"
      using ge by (auto simp: filter_empty_conv)
    show ?thesis
    proof (cases "f y = n")
      case True
      then show ?thesis using Cons.IH [OF s] a by simp
    next
      case False
      then have "n < f y" using \<open>\<not> f y < n\<close> by simp
      then have b: "filter (\<lambda>x. f x = n) ys = []"
        using ge by (auto simp: filter_empty_conv)
      show ?thesis using Cons.IH [OF s] a b \<open>n < f y\<close> by simp
    qed
  qed
qed

lemma sorted_by_key_concat:
  "sorted (map f ys) \<Longrightarrow> \<forall>y\<in>set ys. f y < n \<Longrightarrow>
   ys = concat (map (\<lambda>k. filter (\<lambda>x. f x = k) ys) [0..<n])"
proof (induction n arbitrary: ys)
  case 0
  then show ?case by simp
next
  case (Suc n)
  let ?lo = "filter (\<lambda>x. f x < n) ys"
  have hi: "filter (\<lambda>x. n < f x) ys = []"
    using Suc.prems(2) by (auto simp: filter_empty_conv)
  have split: "ys = ?lo @ filter (\<lambda>x. f x = n) ys"
    using sorted_split_below [OF Suc.prems(1), of n] hi by simp
  have "?lo = concat (map (\<lambda>k. filter (\<lambda>x. f x = k) ?lo) [0..<n])"
    by (rule Suc.IH) (use Suc.prems(1) in \<open>auto intro: sorted_filter\<close>)
  also have "\<dots> = concat (map (\<lambda>k. filter (\<lambda>x. f x = k) ys) [0..<n])"
    by (rule arg_cong [where f = concat], rule map_cong) (auto intro: filter_cong)
  finally have lo: "?lo = concat (map (\<lambda>k. filter (\<lambda>x. f x = k) ys) [0..<n])" .
  show ?case
    using split lo by simp
qed

lemma sort_key_concat:
  assumes "\<forall>x\<in>set xs. f x < n"
  shows "sort_key f xs = concat (map (\<lambda>k. filter (\<lambda>x. f x = k) xs) [0..<n])"
proof -
  have "sort_key f xs = concat (map (\<lambda>k. filter (\<lambda>x. f x = k) (sort_key f xs)) [0..<n])"
    by (rule sorted_by_key_concat) (use assms in auto)
  then show ?thesis
    by (simp add: sort_key_stable)
qed

lemma concat_map_if:
  "concat (map (\<lambda>b. if P b then [h b] else []) xs) = map h (filter P xs)"
  by (induction xs) auto

lemma filter_eq_upt: "e < n \<Longrightarrow> filter (\<lambda>x. P x \<and> x = e) [0..<n] = (if P e then [e] else [])"
  by (induction n) (auto simp: filter_empty_conv less_Suc_eq)

lemma nonzero_column:
  assumes "e < ncols g"
  shows "filter (\<lambda>p. snd p = e) (nonzero g) = map (\<lambda>b. (b, e)) (routed_samples g e)"
proof -
  have "filter (\<lambda>p. snd p = e) (map (Pair b) (filter (\<lambda>e. mrows g ! b ! e \<noteq> 0) [0..<ncols g]))
        = (if mrows g ! b ! e \<noteq> 0 then [(b, e)] else [])" for b
    using filter_eq_upt [OF assms, of "\<lambda>e. mrows g ! b ! e \<noteq> 0"]
    by (simp add: filter_map comp_def)
  then show ?thesis
    by (simp add: nonzero_def routed_samples_def filter_concat comp_def concat_map_if)
qed

lemma nonzero_snd_less: "p \<in> set (nonzero g) \<Longrightarrow> snd p < ncols g"
  by (auto simp: nonzero_def)

lemma sorted_pairs:
  "sort_key snd (nonzero g) = concat (map (\<lambda>e. map (\<lambda>b. (b, e)) (routed_samples g e)) [0..<ncols g])"
proof -
  have "sort_key snd (nonzero g) = concat (map (\<lambda>k. filter (\<lambda>x. snd x = k) (nonzero g)) [0..<ncols g])"
    by (rule sort_key_concat) (simp add: nonzero_snd_less)
  also have "\<dots> = concat (map (\<lambda>e. map (\<lambda>b. (b, e)) (routed_samples g e)) [0..<ncols g])"
    by (rule arg_cong [where f = concat], rule map_cong) (simp_all add: nonzero_column)
  finally show ?thesis .
qed

lemma sd_batch_index_eq:
  "sd_batch_index (SparseDispatcher n g) = map fst (sort_key snd (nonzero g))"
  by (simp add: SparseDispatcher_def Let_def nth_argsort [symmetric])

lemma sd_expert_index_eq:
  "sd_expert_index (SparseDispatcher n g) = map snd (sort_key snd (nonzero g))"
  by (simp add: SparseDispatcher_def Let_def sort_map_key)







lemma sd_batch_index_concat:
  "sd_batch_index (SparseDispatcher n g) = concat (map (routed_samples g) [0..<ncols g])"
  by (simp add: sd_batch_index_eq sorted_pairs map_concat comp_def)

lemma routed_samples_less: "b \<in> set (routed_samples g e) \<Longrightarrow> b < length (mrows g)"
  by (simp add: routed_samples_def)

lemma sd_batch_index_less:
  "b \<in> set (sd_batch_index (SparseDispatcher n g)) \<Longrightarrow> b < length (mrows g)"
  by (auto simp: sd_batch_index_concat routed_samples_less)






section \<open>Properties of the combiner\<close>

lemma fold_index_add_length:
  "length (fold (\<lambda>(i, r) acc. acc[i := map2 (+) (acc ! i) r]) ps z) = length z"
  by (induction ps arbitrary: z) (auto split: prod.splits)

lemma fold_index_add_cell:
  assumes "\<forall>(i, r)\<in>set ps. i < length z \<and> length r = W"
    and "\<forall>r\<in>set z. length r = W" and "b < length z"
  shows "length (fold (\<lambda>(i, r) acc. acc[i := map2 (+) (acc ! i) r]) ps z ! b) = W
       \<and> (c < W \<longrightarrow> fold (\<lambda>(i, r) acc. acc[i := map2 (+) (acc ! i) r]) ps z ! b ! c
            = z ! b ! c + sum_list (map (\<lambda>(i, r). if i = b then r ! c else 0) ps))"
  using assms
proof (induction ps arbitrary: z)
  case Nil
  then show ?case by simp
next
  case (Cons p ps)
  obtain i r where p: "p = (i, r)" by (cases p)
  let ?z = "z[i := map2 (+) (z ! i) r]"
  have i: "i < length z" and r: "length r = W"
    using Cons.prems(1) p by auto
  have zi: "length (z ! i) = W"
    using Cons.prems(2) i by simp
  have 1: "\<forall>(i, r)\<in>set ps. i < length ?z \<and> length r = W"
    using Cons.prems(1) by auto
  have 2: "\<forall>r\<in>set ?z. length r = W"
  proof
    fix q assume "q \<in> set ?z"
    then have "q \<in> insert (map2 (+) (z ! i) r) (set z)"
      using set_update_subset_insert by fastforce
    then show "length q = W"
      using Cons.prems(2) zi r by auto
  qed
  have 3: "b < length ?z" using Cons.prems(3) by simp
  have cell: "c < W \<Longrightarrow> ?z ! b ! c = z ! b ! c + (if i = b then r ! c else 0)"
    using i zi r Cons.prems(3) by (auto simp: nth_list_update)
  show ?case
    using Cons.IH [OF 1 2 3] cell by (simp add: p algebra_simps)
qed

lemma sum_list_concat_map: "sum_list (concat xss) = sum_list (map sum_list xss)"
  for xss :: "real list list"
  by (induction xss) auto

lemma zip_concat_map:
  "\<forall>x\<in>set xs. length (A x) = length (B x) \<Longrightarrow>
   zip (concat (map A xs)) (concat (map B xs)) = concat (map (\<lambda>x. zip (A x) (B x)) xs)"
  by (induction xs) (auto simp: zip_append)

lemma sum_zip_absent:
  "b \<notin> set xs \<Longrightarrow> sum_list (map (\<lambda>(s, r). if s = b then h r else (0::real)) (zip xs rs)) = 0"
  by (induction xs arbitrary: rs) (auto simp: zip_Cons1 split: list.splits)

lemma sum_zip_present:
  "distinct xs \<Longrightarrow> length rs = length xs \<Longrightarrow> i < length xs \<Longrightarrow>
   sum_list (map (\<lambda>(s, r). if s = xs ! i then h r else (0::real)) (zip xs rs)) = h (rs ! i)"
proof (induction xs arbitrary: rs i)
  case Nil
  then show ?case by simp
next
  case (Cons x xs)
  obtain r rs' where rs: "rs = r # rs'"
    using Cons.prems(2) by (cases rs) auto
  show ?case
  proof (cases i)
    case 0
    then show ?thesis
      using Cons.prems(1) sum_zip_absent [of x xs h rs'] by (simp add: rs)
  next
    case (Suc j)
    then have "xs ! j \<noteq> x"
      using Cons.prems(1,3) by auto
    then show ?thesis
      using Cons.IH [of rs' j] Cons.prems Suc by (auto simp: rs)
  qed
qed

lemma routed_samples_nth_slot:
  assumes "b < length (mrows g)" "mrows g ! b ! e \<noteq> 0"
  shows "slot g b e < length (routed_samples g e) \<and> routed_samples g e ! slot g b e = b"
proof -
  have "[0..<length (mrows g)] = [0..<b] @ [b..<length (mrows g)]"
    using upt_add_eq_append [of 0 b "length (mrows g) - b"] assms(1) by simp
  then have "[0..<length (mrows g)] = [0..<b] @ b # [Suc b..<length (mrows g)]"
    using assms(1) by (simp add: upt_conv_Cons)
  then have "routed_samples g e
     = filter (\<lambda>b'. mrows g ! b' ! e \<noteq> 0) [0..<b] @ b # filter (\<lambda>b'. mrows g ! b' ! e \<noteq> 0) [Suc b..<length (mrows g)]"
    unfolding routed_samples_def using assms(2) by simp
  then show ?thesis
    by (simp add: slot_def nth_append)
qed

lemma distinct_routed_samples: "distinct (routed_samples g e)"
  by (simp add: routed_samples_def)

lemma sum_per_expert:
  assumes "length rs = length (routed_samples g e)" "b < length (mrows g)"
  shows "sum_list (map (\<lambda>(s, r). if s = b then h r else (0::real)) (zip (routed_samples g e) rs))
         = (if mrows g ! b ! e \<noteq> 0 then h (rs ! slot g b e) else 0)"
proof (cases "mrows g ! b ! e \<noteq> 0")
  case True
  have s: "slot g b e < length (routed_samples g e)" "routed_samples g e ! slot g b e = b"
    using routed_samples_nth_slot [OF assms(2) True] by simp_all
  show ?thesis
    using sum_zip_present [OF distinct_routed_samples assms(1) s(1), of h] True
    by (simp add: s(2))
next
  case False
  then have "b \<notin> set (routed_samples g e)"
    by (simp add: routed_samples_def)
  then show ?thesis
    using False by (simp add: sum_zip_absent)
qed


lemma zip_map_both:
  "length P = length R \<Longrightarrow>
   zip (map f P) (map2 h (map k R) (map q P)) = map (\<lambda>(p, r). (f p, h (k r) (q p))) (zip P R)"
  by (induction P R rule: list_induct2) auto

lemma stitched_sum:
  fixes g :: matrix and Rs :: "nat \<Rightarrow> real list list"
  defines "P \<equiv> concat (map (\<lambda>e. map (\<lambda>b. (b, e)) (routed_samples g e)) [0..<ncols g])"
  assumes len: "\<forall>e<ncols g. length (Rs e) = length (routed_samples g e)"
    and wid: "\<forall>e<ncols g. \<forall>r\<in>set (Rs e). length r = W"
    and b: "b < length (mrows g)" and c: "c < W"
  shows "sum_list (map (\<lambda>(i, r). if i = b then r ! c else 0)
           (zip (map fst P)
                (map2 (\<lambda>r w. map (\<lambda>v. v * w) r) (map (map exp) (concat (map Rs [0..<ncols g])))
                      (map (\<lambda>(b, e). mrows g ! b ! e) P))))
         = sum_list (map (\<lambda>e. mrows g ! b ! e * exp (Rs e ! slot g b e ! c)) (routed_experts g b))"
proof -
  let ?R = "concat (map Rs [0..<ncols g])"
  let ?A = "\<lambda>e. map (\<lambda>b. (b, e)) (routed_samples g e)"
  have zipPR: "zip P ?R = concat (map (\<lambda>e. zip (?A e) (Rs e)) [0..<ncols g])"
    unfolding P_def by (rule zip_concat_map) (use len in simp)
  have "length P = sum_list (map (\<lambda>e. length (routed_samples g e)) [0..<ncols g])"
    by (simp add: P_def length_concat comp_def)
  also have "\<dots> = sum_list (map (\<lambda>e. length (Rs e)) [0..<ncols g])"
    by (rule arg_cong [where f = sum_list], rule map_cong) (use len in simp_all)
  also have "\<dots> = length ?R"
    by (simp add: length_concat comp_def)
  finally have lenPR: "length P = length ?R" .
  let ?summand = "\<lambda>e (s, r). if s = b then mrows g ! b ! e * exp (r ! c) else (0::real)"
  have per: "sum_list (map (\<lambda>(i, r). if i = b then r ! c else 0)
               (map (\<lambda>(p, r). (fst p, map (\<lambda>v. v * (case p of (b, e) \<Rightarrow> mrows g ! b ! e)) (map exp r)))
                    (zip (?A e) (Rs e))))
             = (if mrows g ! b ! e \<noteq> 0 then mrows g ! b ! e * exp (Rs e ! slot g b e ! c) else 0)"
    if e: "e < ncols g" for e
  proof -
    have "map (\<lambda>(i, r). if i = b then r ! c else 0)
               (map (\<lambda>(p, r). (fst p, map (\<lambda>v. v * (case p of (b, e) \<Rightarrow> mrows g ! b ! e)) (map exp r)))
                    (zip (?A e) (Rs e)))
          = map (?summand e) (zip (routed_samples g e) (Rs e))"
    proof -
      have "length r = W" if "(s, r) \<in> set (zip (routed_samples g e) (Rs e))" for s r
        using wid e that by (auto dest: set_zip_rightD)
      then show ?thesis
        using c by (auto simp: zip_map1 intro!: map_cong)
    qed
    then show ?thesis
      using sum_per_expert [of "Rs e" g e b "\<lambda>r. mrows g ! b ! e * exp (r ! c)"] len e b
      by simp
  qed
  let ?G = "\<lambda>(i, r). if i = b then r ! c else (0::real)"
  let ?F = "\<lambda>(p, r). (fst p, map (\<lambda>v. v * (case p of (b, e) \<Rightarrow> mrows g ! b ! e)) (map exp r))"
  have a: "zip (map fst P)
                (map2 (\<lambda>r w. map (\<lambda>v. v * w) r) (map (map exp) ?R)
                      (map (\<lambda>(b, e). mrows g ! b ! e) P))
           = map ?F (zip P ?R)"
    by (rule zip_map_both [OF lenPR])
  have b': "map ?G (map ?F (zip P ?R))
            = concat (map (\<lambda>e. map ?G (map ?F (zip (?A e) (Rs e)))) [0..<ncols g])"
    unfolding zipPR by (simp only: map_concat map_map comp_def)
  have "sum_list (map ?G
           (zip (map fst P)
                (map2 (\<lambda>r w. map (\<lambda>v. v * w) r) (map (map exp) ?R)
                      (map (\<lambda>(b, e). mrows g ! b ! e) P))))
        = sum_list (map (\<lambda>e. sum_list (map ?G (map ?F (zip (?A e) (Rs e))))) [0..<ncols g])"
    unfolding a b' sum_list_concat_map by (simp only: map_map comp_def)
  also have "\<dots> = sum_list (map (\<lambda>e. if mrows g ! b ! e \<noteq> 0
                               then mrows g ! b ! e * exp (Rs e ! slot g b e ! c) else 0) [0..<ncols g])"
    by (rule arg_cong [where f = sum_list], rule map_cong) (use per in simp_all)
  also have "\<dots> = sum_list (map (\<lambda>e. mrows g ! b ! e * exp (Rs e ! slot g b e ! c)) (routed_experts g b))"
    by (simp add: routed_experts_def sum_list_map_filter')
  finally show ?thesis .
qed


lemma expert_out_okD:
  assumes "expert_out_ok g L D xs" "e < ncols g"
  shows "inner (xs ! e) = [L, D]" and "wf_tensor (xs ! e)"
    and "length (rows (xs ! e)) = length (routed_samples g e)"
  using assms by (auto simp: expert_out_ok_def list_all_iff)

lemma cat0_expert_out:
  assumes ok: "expert_out_ok g L D xs" and E: "0 < ncols g"
  shows "cat0 xs = Inr \<lparr>inner = [L, D], rows = concat (map (\<lambda>e. rows (xs ! e)) [0..<ncols g])\<rparr>
         \<and> inner (last xs) = [L, D]"
proof -
  have len: "length xs = ncols g"
    using ok by (simp add: expert_out_ok_def)
  have all: "inner t = [L, D]" if "t \<in> set xs" for t
    using that expert_out_okD(1) [OF ok] len by (auto simp: in_set_conv_nth)
  have ne: "xs \<noteq> []"
    using len E by auto
  then obtain t us where xs: "xs = t # us"
    by (cases xs) auto
  have keep: "filter (\<lambda>t. \<not> (inner t = [] \<and> rows t = [])) xs = xs"
    using all by (auto simp: filter_id_conv)
  have "map rows xs = map rows (map (\<lambda>e. xs ! e) [0..<length xs])"
    by (simp only: map_nth)
  then have rws: "concat (map rows xs) = concat (map (\<lambda>e. rows (xs ! e)) [0..<ncols g])"
    by (simp add: len comp_def)
  have us: "list_all (\<lambda>u. inner u = inner t) us"
    using all xs by (auto simp: list_all_iff)
  have "cat0 xs = Inr \<lparr>inner = inner t, rows = concat (map rows xs)\<rparr>"
    unfolding cat0_def keep using us by (simp add: xs)
  moreover have "inner t = [L, D]"
    using all xs by simp
  moreover have "inner (last xs) = [L, D]"
    using all ne by simp
  ultimately show ?thesis
    using rws by simp
qed

lemma length_pairs_rows:
  assumes "\<forall>e<ncols g. length (Rs e) = length (routed_samples g e)"
  shows "length (concat (map Rs [0..<ncols g]))
         = length (concat (map (\<lambda>e. map (\<lambda>b. (b, e)) (routed_samples g e)) [0..<ncols g]))"
proof -
  have "sum_list (map (\<lambda>e. length (Rs e)) [0..<ncols g])
        = sum_list (map (\<lambda>e. length (routed_samples g e)) [0..<ncols g])"
    by (rule arg_cong [where f = sum_list], rule map_cong) (use assms in simp_all)
  then show ?thesis
    by (simp add: length_concat comp_def)
qed

lemma sd_nonzero_gates_eq:
  "sd_nonzero_gates (SparseDispatcher n g)
   = map (\<lambda>(b, e). mrows g ! b ! e) (sort_key snd (nonzero g))"
proof -
  have "sd_nonzero_gates (SparseDispatcher n g)
        = map2 (\<lambda>r e. r ! e) (map (\<lambda>b. mrows g ! b) (sd_batch_index (SparseDispatcher n g)))
               (sd_expert_index (SparseDispatcher n g))"
    by (simp add: SparseDispatcher_def Let_def)
  then show ?thesis
    by (simp add: sd_batch_index_eq sd_expert_index_eq zip_map_map zip_same_conv_map
        case_prod_beta comp_def)
qed

lemma combine_rows:
  assumes ok: "expert_out_ok g L D xs" and E: "0 < ncols g"
  shows "combine (SparseDispatcher n g) xs True
         = Inr \<lparr>inner = [L, D],
                rows = map (\<lambda>b. map (\<lambda>c. ln (if accumulated g xs b c = 0 then finfo_float_eps
                                                else accumulated g xs b c)) [0..<L * D])
                           [0..<length (mrows g)]\<rparr>"
proof -
  let ?sd = "SparseDispatcher n g"
  let ?W = "L * D" and ?B = "length (mrows g)"
  let ?Rs = "\<lambda>e. rows (xs ! e)"
  let ?R = "concat (map ?Rs [0..<ncols g])"
  let ?P = "concat (map (\<lambda>e. map (\<lambda>b. (b, e)) (routed_samples g e)) [0..<ncols g])"
  let ?st = "map2 (\<lambda>r w. map (\<lambda>v. v * w) r) (map (map exp) ?R) (map (\<lambda>(b, e). mrows g ! b ! e) ?P)"
  let ?step = "\<lambda>(i, r) acc. acc[i := map2 (+) (acc ! i) r]"
  let ?z = "replicate ?B (replicate ?W (0::real))"
  let ?acc = "fold ?step (zip (map fst ?P) ?st) ?z"
  have len: "\<forall>e<ncols g. length (?Rs e) = length (routed_samples g e)"
    using expert_out_okD(3) [OF ok] by simp
  have wid: "\<forall>e<ncols g. \<forall>r\<in>set (?Rs e). length r = ?W"
    using expert_out_okD(1,2) [OF ok] by (auto simp: wf_tensor_def list_all_iff)
  have lenPR: "length ?R = length ?P"
    by (rule length_pairs_rows [OF len])
  have idx: "sd_batch_index ?sd = map fst ?P" and ng: "sd_nonzero_gates ?sd = map (\<lambda>(b, e). mrows g ! b ! e) ?P"
    by (simp_all add: sd_batch_index_eq sd_nonzero_gates_eq sorted_pairs)
  have cat: "cat0 xs = Inr \<lparr>inner = [L, D], rows = ?R\<rparr>" and lst: "inner (last xs) = [L, D]"
    using cat0_expert_out [OF ok E] by simp_all
  have ein: "einsum_ikh_ik \<lparr>inner = [L, D], rows = map (map exp) ?R\<rparr> (sd_nonzero_gates ?sd)
             = Inr \<lparr>inner = [L, D], rows = ?st\<rparr>"
    by (simp add: einsum_ikh_ik_def ng lenPR)
  have gts: "sd_gates ?sd = g"
    by (simp add: SparseDispatcher_def Let_def)
  have inrange: "\<not> list_ex (\<lambda>i. ?B \<le> i) (sd_batch_index ?sd)"
    by (auto simp: list_ex_iff dest: sd_batch_index_less)
  have ia: "index_add \<lparr>inner = [L, D], rows = ?z\<rparr> (sd_batch_index ?sd) \<lparr>inner = [L, D], rows = ?st\<rparr>
            = Inr \<lparr>inner = [L, D], rows = ?acc\<rparr>"
    using inrange by (simp add: index_add_def idx lenPR)
  have pre1: "\<forall>(i, r)\<in>set (zip (map fst ?P) ?st). i < length ?z \<and> length r = ?W"
  proof -
    have "i < ?B" if "i \<in> set (map fst ?P)" for i
      using that sd_batch_index_less [of i n g] by (simp add: idx)
    moreover have "length r = ?W" if "r \<in> set ?st" for r
    proof -
      from that obtain q w
        where qw: "(q, w) \<in> set (zip (map (map exp) ?R) (map (\<lambda>(b, e). mrows g ! b ! e) ?P))"
          and r: "r = map (\<lambda>v. v * w) q"
        by auto
      from qw have "q \<in> set (map (map exp) ?R)"
        by (rule set_zip_leftD)
      then obtain q' where "q' \<in> set ?R" "q = map exp q'"
        by auto
      with wid r show ?thesis by auto
    qed
    ultimately show ?thesis
      by (auto dest: set_zip_leftD set_zip_rightD)
  qed
  have pre2: "\<forall>r\<in>set ?z. length r = ?W"
    by simp
  have cellb: "?acc ! b = map (\<lambda>c. accumulated g xs b c) [0..<?W]" if b: "b < ?B" for b
  proof (rule nth_equalityI)
    have bz: "b < length ?z" using b by simp
    show "length (?acc ! b) = length (map (\<lambda>c. accumulated g xs b c) [0..<?W])"
      using fold_index_add_cell [OF pre1 pre2 bz] by simp
    fix c assume "c < length (?acc ! b)"
    then have c: "c < ?W"
      using fold_index_add_cell [OF pre1 pre2 bz] by simp
    have "?acc ! b ! c = ?z ! b ! c + sum_list (map (\<lambda>(i, r). if i = b then r ! c else 0) (zip (map fst ?P) ?st))"
      using fold_index_add_cell [OF pre1 pre2 bz, of c] c by blast
    also have "\<dots> = accumulated g xs b c"
      using stitched_sum [OF len wid b c] b c by (simp add: accumulated_def)
    finally show "?acc ! b ! c = map (\<lambda>c. accumulated g xs b c) [0..<?W] ! c"
      using c by simp
  qed
  have acc: "?acc = map (\<lambda>b. map (\<lambda>c. accumulated g xs b c) [0..<?W]) [0..<?B]"
    by (rule nth_equalityI) (simp_all add: fold_index_add_length cellb)
  show ?thesis
    unfolding combine_def cat bind_def
    by (simp add: map_tensor_def ein lst gts ia acc comp_def)
qed




lemma aggregator_forward_combine:
  "aggregator_forward xs g m = combine (SparseDispatcher n g) xs m"
  by (simp add: aggregator_forward_def combine_def SparseDispatcher_def Let_def
      cong: if_cong list.case_cong)


lemma zero_gate_facts:
  "expert_out_ok zero_gate 1 1 ex_empty_out" "ncols zero_gate = 1"
  "length (mrows zero_gate) = 1" "routed_experts zero_gate 0 = []"
  by (simp_all add: expert_out_ok_def routed_samples_def routed_experts_def wf_tensor_def
      zero_gate_def ex_empty_out_def)


lemma ln_inverse_power2: "ln (1 / 2 ^ k) = - (real k * ln 2)"
  by (simp add: ln_div ln_realpow)




text \<open>
  Claim C5, amended. For a sample whose gate row is all zero, \<open>combine\<close> returns and
  every element of the sample's row is the logarithm of the floor constant, which is
  \<open>np.finfo(float).eps = 2^-52\<close>, the machine epsilon, not the smallest positive float.
\<close>

theorem combine_unrouted_row:
  assumes "expert_out_ok gates L D expert_out" and "0 < ncols gates"
    and "b < length (mrows gates)" and "routed_experts gates b = []"
  shows "\<exists>out. combine (SparseDispatcher n gates) expert_out True = Inr out
           \<and> aggregator_forward expert_out gates True = Inr out
           \<and> length (rows out ! b) = L * D
           \<and> (\<forall>c<L * D. rows out ! b ! c = ln finfo_float_eps)
           \<and> finfo_float_eps = 1 / 2 ^ 52"
  using combine_rows [OF assms(1,2), of n] assms(3,4)
  by (simp add: aggregator_forward_combine [of _ _ _ n] accumulated_def finfo_float_eps_def)

theorem combine_unrouted_row_witness:
  "expert_out_ok zero_gate 1 1 ex_empty_out \<and> 0 < ncols zero_gate
   \<and> 0 < length (mrows zero_gate) \<and> routed_experts zero_gate 0 = []
   \<and> (\<exists>out. combine (SparseDispatcher 1 zero_gate) ex_empty_out True = Inr out
          \<and> rows out ! 0 ! 0 = ln (1 / 2 ^ 52))"
proof -
  have h2: "0 < ncols zero_gate" and h3: "0 < length (mrows zero_gate)"
    by (simp_all add: zero_gate_facts)
  show ?thesis
    using combine_unrouted_row [OF zero_gate_facts(1) h2 h3 zero_gate_facts(4), of 1]
      zero_gate_facts h2 h3
    by auto
qed

text \<open>
  Claim C5 as stated fails: with one sample, one expert and an all-zero gate row the
  output element is \<open>ln (2^-52)\<close>, which is neither the logarithm of the smallest
  positive normal double \<open>2^-1022 = 2.2250738585072014e-308\<close> nor that of the smallest
  positive subnormal double \<open>2^-1074\<close>.
\<close>

theorem combine_floor_counterexample:
  "combine (SparseDispatcher 1 zero_gate) ex_empty_out True
     = Inr \<lparr>inner = [1, 1], rows = [[ln (1 / 2 ^ 52)]]\<rparr>
   \<and> ln (1 / 2 ^ 52 :: real) \<noteq> ln (1 / 2 ^ 1022) \<and> ln (1 / 2 ^ 52 :: real) \<noteq> ln (1 / 2 ^ 1074)"
proof -
  have "0 < ncols zero_gate"
    by (simp add: zero_gate_facts)
  then have c: "combine (SparseDispatcher 1 zero_gate) ex_empty_out True
     = Inr \<lparr>inner = [1, 1], rows = [[ln (1 / 2 ^ 52)]]\<rparr>"
    using combine_rows [OF zero_gate_facts(1), of 1]
    by (simp add: zero_gate_facts accumulated_def finfo_float_eps_def)
  have l: "(0::real) < ln 2"
    by simp
  have "ln (1 / 2 ^ 52 :: real) \<noteq> ln (1 / 2 ^ 1022)" "ln (1 / 2 ^ 52 :: real) \<noteq> ln (1 / 2 ^ 1074)"
    unfolding ln_inverse_power2 using l by simp_all
  then show ?thesis
    using c by blast
qed




section \<open>Dispatching and combining again\<close>








section \<open>Properties of the gating\<close>

















lemma ex_patch_sizes: "get_patch_sizes 4 = [2, 4]"
  by (simp add: get_patch_sizes_def rfftfreq_def unique_def upt_rec)

lemma ex_stack:
  "es_k (EncoderStack ex_cfg ex_linear) = 1" "es_start_linear (EncoderStack ex_cfg ex_linear) = ex_linear"
  "es_k (EncoderStack ex_cfg_big ex_linear) = 5"
  "es_start_linear (EncoderStack ex_cfg_big ex_linear) = ex_linear"
  "es_num_patch_sizes (EncoderStack ex_cfg_big ex_linear) = 2"
  "es_k (EncoderStack ex_cfg_eq ex_linear) = 2"
  "es_start_linear (EncoderStack ex_cfg_eq ex_linear) = ex_linear"
  "es_num_patch_sizes (EncoderStack ex_cfg_eq ex_linear) = 2"
  by (simp_all add: EncoderStack_def Let_def ex_cfg_def ex_cfg_big_def ex_cfg_eq_def ex_patch_sizes)



text \<open>
  Claim C7. In inference mode the gate matrix of either gating function does not
  depend on the random draw, on the noise floor or on the noise weights: it is a
  function of the input (and the module) alone, so twice the same input gives twice the
  same gates.
\<close>

theorem top_k_gating_inference_deterministic:
  "top_k_gating self x groups_amplitude False randn noise_epsilon
     = top_k_gating self x groups_amplitude False randn' noise_epsilon'
   \<and> top_k_gating (self\<lparr>es_w_noise := w\<rparr>) x groups_amplitude False randn noise_epsilon
     = top_k_gating self x groups_amplitude False randn noise_epsilon
   \<and> afno1d_for_peroid_weights pe y False rnd noise_epsilon
     = afno1d_for_peroid_weights pe y False rnd' noise_epsilon'
   \<and> afno1d_for_peroid_weights (pe\<lparr>pe_w_noise := w\<rparr>) y False rnd noise_epsilon
     = afno1d_for_peroid_weights pe y False rnd noise_epsilon"
  by (simp add: top_k_gating_def gating_logits_def afno1d_for_peroid_weights_def)

text \<open>
  Claim C6, amended. Construction stores the configured \<open>K\<close> as it is and does not
  compare it with the number of candidate periods; a later gating call in inference
  mode returns a gate matrix exactly when \<open>K + 1\<close> is at most the number of candidates,
  and raises otherwise.
\<close>

theorem EncoderStack_keeps_top_k:
  assumes "start_linear x = Inr xp"
    and "ncols groups_amplitude = length (get_patch_sizes (seq_len cfg))"
  shows "es_k (EncoderStack cfg start_linear) = top_k cfg
       \<and> es_num_patch_sizes (EncoderStack cfg start_linear) = length (get_patch_sizes (seq_len cfg))
       \<and> ((\<exists>gates. top_k_gating (EncoderStack cfg start_linear) x groups_amplitude False randn
                      noise_epsilon = Inr gates)
            \<longleftrightarrow> top_k cfg + 1 \<le> length (get_patch_sizes (seq_len cfg)))"
  using assms
  by (auto simp: EncoderStack_def Let_def top_k_gating_def gating_logits_def bind_def topk_def)

theorem EncoderStack_keeps_top_k_witness:
  "ex_linear ex_x = Inr \<lparr>ncols = 4, mrows = [[0, 0, 0, 0]]\<rparr>
   \<and> ncols ex_scores = length (get_patch_sizes (seq_len ex_cfg))
   \<and> es_k (EncoderStack ex_cfg ex_linear) = 1
   \<and> (\<exists>gates. top_k_gating (EncoderStack ex_cfg ex_linear) ex_x ex_scores False ex_scores (1 / 100)
                  = Inr gates)"
proof -
  have h1: "ex_linear ex_x = Inr \<lparr>ncols = 4, mrows = [[0, 0, 0, 0]]\<rparr>"
    by (simp add: ex_linear_def ex_x_def)
  have h2: "ncols ex_scores = length (get_patch_sizes (seq_len ex_cfg))"
    by (simp add: ex_scores_def ex_cfg_def ex_patch_sizes)
  have "top_k ex_cfg + 1 \<le> length (get_patch_sizes (seq_len ex_cfg))" "top_k ex_cfg = 1"
    by (simp_all add: ex_cfg_def ex_patch_sizes)
  then show ?thesis
    using EncoderStack_keeps_top_k [where start_linear = ex_linear and x = ex_x and cfg = ex_cfg
        and groups_amplitude = ex_scores and randn = ex_scores and noise_epsilon = "1 / 100",
        OF h1 h2] h1 h2
    by simp
qed

text \<open>
  Claim C6 as stated fails: with sequence length 4 (two candidates) and \<open>K = 5\<close> the
  constructed stack keeps \<open>K = 5\<close>, and its gating raises; with \<open>K = 2\<close>, equal to the
  number of candidates, the gating raises as well.
\<close>

theorem EncoderStack_no_clamp_counterexample:
  "es_k (EncoderStack ex_cfg_big ex_linear) = 5
   \<and> es_num_patch_sizes (EncoderStack ex_cfg_big ex_linear) = 2
   \<and> top_k_gating (EncoderStack ex_cfg_big ex_linear) ex_x ex_scores False ex_scores (1 / 100)
       = Inl RuntimeError
   \<and> es_k (EncoderStack ex_cfg_eq ex_linear) = 2
   \<and> es_num_patch_sizes (EncoderStack ex_cfg_eq ex_linear) = 2
   \<and> top_k_gating (EncoderStack ex_cfg_eq ex_linear) ex_x ex_scores False ex_scores (1 / 100)
       = Inl RuntimeError"
  by (simp add: ex_stack top_k_gating_def gating_logits_def bind_def topk_def ex_linear_def
      ex_scores_def)

end
